theory Spec2Isabelle
  imports Main "HOL-Library.Sublist" "HOL-Library.Multiset"
begin

section \<open>Common data\<close>

text \<open>
  A Python \<open>bytes\<close> value is a list of 8-bit characters: \<open>b"READ"\<close> is \<open>''READ''\<close> and
  the byte \<open>0x32\<close> is \<open>CHR 0x32\<close>. Python \<open>str\<close> values (operation names, host
  addresses) are lists of characters as well.
\<close>

type_synonym bytes = "char list"

datatype py_error = IndexError | TypeError | AttributeError | OSError string

text \<open>\<open>needle in payload\<close> for two \<open>bytes\<close> values: contiguous occurrence.\<close>

fun bytes_in :: "bytes \<Rightarrow> bytes \<Rightarrow> bool" where
  "bytes_in n [] = (n = [])"
| "bytes_in n (x # xs) = (prefix n (x # xs) \<or> bytes_in n xs)"

text \<open>\<open>x or "unknown"\<close> on an attribute that may be \<open>None\<close> or an empty string.\<close>

definition or_unknown :: "string option \<Rightarrow> string" where
  "or_unknown a = (case a of None \<Rightarrow> ''unknown''
                   | Some s \<Rightarrow> if s = [] then ''unknown'' else s)"

text \<open>
  A captured frame as the analyzers read it: the ports of its TCP and UDP layers
  (source port first) when the layer is present, the \<open>src\<close> and \<open>dst\<close> attributes of
  its second layer (\<open>None\<close> when that layer has no such attribute), and the bytes of
  its \<open>Raw\<close> layer when there is one. A frame has at least two layers, as every
  frame with a transport layer and a payload has.
\<close>

record packet =
  tcp :: "(nat \<times> nat) option"
  udp :: "(nat \<times> nat) option"
  ip_src :: "string option"
  ip_dst :: "string option"
  raw :: "bytes option"

section \<open>S7Comm parser (s7\_comm\_analyzer/parsers.py)\<close>

definition FUNC_MAP :: "(char \<times> string) list" where
  "FUNC_MAP = [(CHR 0x04, ''ReadVar''), (CHR 0x05, ''WriteVar''), (CHR 0x02, ''Start''),
               (CHR 0x03, ''Stop''), (CHR 0xF0, ''SetupComm'')]"

definition S7_SUSPECT_FUNCS :: "string set" where
  "S7_SUSPECT_FUNCS = {''WriteVar'', ''Start'', ''Stop'', ''DownloadBlock'',
                       ''CopyRamToRom'', ''FirmwareUpdate''}"

definition BLOCK_HINTS :: "bytes list" where
  "BLOCK_HINTS = [''OB1'', ''OB'', ''DB'', ''FB'', ''FC'', ''System'', ''PLC'',
                  ''Firmware'', ''Update'']"

text \<open>
  \<open>_guess_function\<close>. The read \<open>payload[1]\<close> raises \<open>IndexError\<close> on a one-byte
  payload; \<open>if base\<close> is the truth value of the looked-up name.
\<close>

definition guess_function :: "bytes \<Rightarrow> py_error + string" where
  "guess_function payload =
     (if payload = [] \<or> payload ! 0 \<noteq> CHR 0x32 then Inr ''NonS7Payload''
      else
        let big = (length payload \<ge> 200);
            huge = (length payload \<ge> 800)
        in if length payload < 2 then Inl IndexError
           else
             let func_byte = payload ! 1;
                 base = map_of FUNC_MAP func_byte
             in if big \<and> list_ex (\<lambda>h. bytes_in h payload) BLOCK_HINTS
                  then Inr ''DownloadBlock''
                else if huge \<and> (bytes_in ''Firmware'' payload \<or> bytes_in ''Update'' payload)
                  then Inr ''FirmwareUpdate''
                else if big \<and> bytes_in ''Copy'' payload \<and> bytes_in ''Rom'' payload
                  then Inr ''CopyRamToRom''
                else if base \<noteq> None \<and> base \<noteq> Some []
                  then Inr (the base)
                else if CHR 0x05 \<in> set payload then Inr ''WriteVar''
                else if CHR 0x04 \<in> set payload then Inr ''ReadVar''
                else Inr ''Unknown'')"

record s7_record =
  s7_src :: string
  s7_dst :: string
  s7_function_code :: string
  s7_length :: nat
  s7_hints :: "string list"

text \<open>\<open>parse_s7_packet\<close>: \<open>None\<close> is the Python \<open>None\<close> (no record).\<close>

definition parse_s7_packet :: "packet \<Rightarrow> py_error + s7_record option" where
  "parse_s7_packet pkt =
     (case raw pkt of
        None \<Rightarrow> Inr None
      | Some payload \<Rightarrow>
          if length payload < 10 \<or> payload ! 0 \<noteq> CHR 0x32 then Inr None
          else (case guess_function payload of
                  Inl e \<Rightarrow> Inl e
                | Inr func_name \<Rightarrow>
                    Inr (Some \<lparr> s7_src = or_unknown (ip_src pkt),
                                s7_dst = or_unknown (ip_dst pkt),
                                s7_function_code = func_name,
                                s7_length = length payload,
                                s7_hints = filter (\<lambda>h. bytes_in h payload) BLOCK_HINTS \<rparr>)))"

section \<open>DNP3 parser (dnp3\_monitor/parsers.py)\<close>

definition DNP3_SUSPECT_FUNCS :: "string set" where
  "DNP3_SUSPECT_FUNCS = {''Operate'', ''Write'', ''EnableUnsolicited'', ''ColdRestart'',
                         ''WarmRestart'', ''ClearRestart''}"

definition HINTS :: "bytes list" where
  "HINTS = [''UNSOL'', ''OPER'', ''RESTART'', ''SELECT'', ''READ'', ''WRITE'', ''DNP'']"

definition classify_app_function :: "bytes \<Rightarrow> string" where
  "classify_app_function payload =
     (if payload = [] \<or> length payload < 8 then ''UnknownDNP3''
      else if bytes_in ''READ'' payload then ''Read''
      else if bytes_in ''WRITE'' payload then ''Write''
      else if bytes_in ''OPER'' payload then ''Operate''
      else if bytes_in ''SELECT'' payload then ''Select''
      else if bytes_in ''UNSOL'' payload then ''EnableUnsolicited''
      else if bytes_in ''COLD'' payload \<and> bytes_in ''RESTART'' payload then ''ColdRestart''
      else if bytes_in ''WARM'' payload \<and> bytes_in ''RESTART'' payload then ''WarmRestart''
      else if bytes_in ''CLEAR'' payload \<and> bytes_in ''RESTART'' payload then ''ClearRestart''
      else ''UnknownDNP3'')"

record dnp3_record =
  dnp3_src :: string
  dnp3_dst :: string
  dnp3_function :: string
  dnp3_length :: nat
  dnp3_hints :: "string list"
  dnp3_suspect :: bool

definition parse_dnp3_packet :: "packet \<Rightarrow> dnp3_record option" where
  "parse_dnp3_packet pkt =
     (case raw pkt of
        None \<Rightarrow> None
      | Some payload \<Rightarrow>
          let func = classify_app_function payload
          in Some \<lparr> dnp3_src = or_unknown (ip_src pkt),
                    dnp3_dst = or_unknown (ip_dst pkt),
                    dnp3_function = func,
                    dnp3_length = length payload,
                    dnp3_hints = filter (\<lambda>h. bytes_in h payload) HINTS,
                    dnp3_suspect = (func \<in> DNP3_SUSPECT_FUNCS) \<rparr>)"

section \<open>Run aggregation (dnp3\_analyze.py, s7\_analyze.py)\<close>

text \<open>
  The accumulator of \<open>analyze_pcap\<close>: the \<open>results\<close> list and the \<open>summary\<close>
  dictionary. \<open>protocol_packets\<close> is the key \<open>dnp3_packets\<close> of the DNP3 analyzer and
  \<open>s7_packets\<close> of the S7Comm analyzer; \<open>unique_hosts\<close> is a Python set.
\<close>

record 'r run_state =
  results :: "'r list"
  total_packets :: nat
  protocol_packets :: nat
  suspect_functions :: nat
  unique_hosts :: "string set"

definition init_state :: "'r run_state" where
  "init_state = \<lparr> results = [], total_packets = 0, protocol_packets = 0,
                  suspect_functions = 0, unique_hosts = {} \<rparr>"

definition port_match :: "nat \<Rightarrow> (nat \<times> nat) option \<Rightarrow> bool" where
  "port_match p layer = (case layer of None \<Rightarrow> False
                         | Some (sport, dport) \<Rightarrow> dport = p \<or> sport = p)"

definition is_dnp3 :: "packet \<Rightarrow> bool" where
  "is_dnp3 pkt = (if port_match 20000 (tcp pkt) then True
                  else if port_match 20000 (udp pkt) then True
                  else False)"

text \<open>One iteration of the loop of the DNP3 \<open>analyze_pcap\<close>.\<close>

definition dnp3_step :: "dnp3_record run_state \<Rightarrow> packet \<Rightarrow> dnp3_record run_state" where
  "dnp3_step s pkt =
     (let s1 = s\<lparr> total_packets := total_packets s + 1 \<rparr>
      in if \<not> is_dnp3 pkt then s1
         else (case parse_dnp3_packet pkt of
                 None \<Rightarrow> s1
               | Some parsed \<Rightarrow>
                   let s2 = s1\<lparr> results := results s1 @ [parsed],
                                  protocol_packets := protocol_packets s1 + 1,
                                  unique_hosts := insert (dnp3_dst parsed)
                                                    (insert (dnp3_src parsed) (unique_hosts s1)) \<rparr>
                   in if dnp3_suspect parsed
                        then s2\<lparr> suspect_functions := suspect_functions s2 + 1 \<rparr>
                        else s2))"

text \<open>
  The report's \<open>summary\<close>: the counters, and \<open>list(filter(None, unique_hosts))\<close>, kept
  as a set since the order of that list is the iteration order of a Python set.
\<close>

definition seal :: "'r run_state \<Rightarrow> 'r run_state" where
  "seal s = s\<lparr> unique_hosts := Set.filter (\<lambda>h. h \<noteq> []) (unique_hosts s) \<rparr>"

definition dnp3_analyze_pcap :: "packet list \<Rightarrow> dnp3_record run_state" where
  "dnp3_analyze_pcap packets = seal (foldl dnp3_step init_state packets)"

text \<open>
  The S7Comm \<open>analyze_pcap\<close>; the membership test is the set literal written in the
  loop itself.
\<close>

definition s7_step :: "s7_record run_state \<Rightarrow> packet \<Rightarrow> py_error + s7_record run_state" where
  "s7_step s pkt =
     (let s1 = s\<lparr> total_packets := total_packets s + 1 \<rparr>
      in if port_match 102 (tcp pkt)
         then (case parse_s7_packet pkt of
                 Inl e \<Rightarrow> Inl e
               | Inr None \<Rightarrow> Inr s1
               | Inr (Some parsed) \<Rightarrow>
                   let s2 = s1\<lparr> results := results s1 @ [parsed],
                                  protocol_packets := protocol_packets s1 + 1,
                                  unique_hosts := insert (s7_dst parsed)
                                                    (insert (s7_src parsed) (unique_hosts s1)) \<rparr>
                   in if s7_function_code parsed \<in>
                           {''WriteVar'', ''Start'', ''Stop'', ''DownloadBlock'',
                            ''CopyRamToRom'', ''FirmwareUpdate''}
                        then Inr (s2\<lparr> suspect_functions := suspect_functions s2 + 1 \<rparr>)
                        else Inr s2)
         else Inr s1)"

fun s7_loop :: "s7_record run_state \<Rightarrow> packet list \<Rightarrow> py_error + s7_record run_state" where
  "s7_loop s [] = Inr s"
| "s7_loop s (pkt # pkts) = (case s7_step s pkt of Inl e \<Rightarrow> Inl e
                             | Inr s' \<Rightarrow> s7_loop s' pkts)"

definition s7_analyze_pcap :: "packet list \<Rightarrow> py_error + s7_record run_state" where
  "s7_analyze_pcap packets = (case s7_loop init_state packets of Inl e \<Rightarrow> Inl e
                              | Inr s \<Rightarrow> Inr (seal s))"

section \<open>Modbus probe (modbus\_scanner/modbus\_scan.py)\<close>

text \<open>
  What the Modbus client does is the environment of \<open>probe_host\<close>. Creating the client
  and connecting: either raises, or \<open>connect()\<close> returns false, or it succeeds. A read
  either raises inside its \<open>try\<close> block (the message is \<open>safe_str(e)\<close>), or gives a
  response that is a \<open>ModbusIOException\<close> or whose \<open>isError()\<close> is not \<open>False\<close>, or
  gives a response whose \<open>bits\<close>/\<open>registers\<close> attribute is a list or \<open>None\<close>.
\<close>

datatype connect_outcome = CtorRaises string | ConnectRaises string | ConnectFalse | Connected

datatype 'a read_reply = Raises string | NoData | Reply "'a list option"

record 'l modbus_env =
  connect :: connect_outcome
  rd_coils :: "bool read_reply"
  rd_discrete_inputs :: "bool read_reply"
  rd_holding_registers :: "int read_reply"
  rd_input_registers :: "int read_reply"
  elapsed_ms :: 'l

record reads =
  coils :: "bool list option"
  discrete_inputs :: "bool list option"
  holding_registers :: "int list option"
  input_registers :: "int list option"

record exposure =
  unauthenticated_read :: bool
  broad_register_access :: bool

record 'l probe_result =
  ip :: string
  port :: nat
  unit_id :: nat
  reachable :: bool
  latency_ms :: "'l option"
  p_reads :: reads
  p_exposure :: exposure
  errors :: "string list"

definition init_result :: "string \<Rightarrow> nat \<Rightarrow> nat \<Rightarrow> 'l probe_result" where
  "init_result i p u =
     \<lparr> ip = i, port = p, unit_id = u, reachable = False, latency_ms = None,
       p_reads = \<lparr> coils = None, discrete_inputs = None, holding_registers = None,
                   input_registers = None \<rparr>,
       p_exposure = \<lparr> unauthenticated_read = False, broad_register_access = False \<rparr>,
       errors = [] \<rparr>"

text \<open>One of the four \<open>try\<close> blocks: \<open>store\<close> writes the window of that read.\<close>

definition read_step ::
  "'a read_reply \<Rightarrow> string \<Rightarrow> ('a list \<Rightarrow> reads \<Rightarrow> reads) \<Rightarrow> 'l probe_result \<Rightarrow> 'l probe_result" where
  "read_step rr label store res =
     (case rr of
        Raises m \<Rightarrow> res\<lparr> errors := errors res @ [label @ ''_read_error: '' @ m] \<rparr>
      | NoData \<Rightarrow> res
      | Reply vs \<Rightarrow>
          res\<lparr> p_reads := store (case vs of None \<Rightarrow> [] | Some l \<Rightarrow> l) (p_reads res),
                p_exposure := (p_exposure res)\<lparr> unauthenticated_read := True \<rparr> \<rparr>)"

definition has_data :: "'a list option \<Rightarrow> bool" where
  "has_data v = (case v of None \<Rightarrow> False | Some l \<Rightarrow> length l > 0)"

definition windows_with_data :: "reads \<Rightarrow> nat" where
  "windows_with_data r =
     length (filter (\<lambda>b. b) [has_data (coils r), has_data (discrete_inputs r),
                              has_data (holding_registers r), has_data (input_registers r)])"

definition finish :: "'l modbus_env \<Rightarrow> 'l probe_result \<Rightarrow> 'l probe_result" where
  "finish env res = res\<lparr> latency_ms := Some (elapsed_ms env) \<rparr>"

definition probe_host :: "'l modbus_env \<Rightarrow> string \<Rightarrow> nat \<Rightarrow> nat \<Rightarrow> 'l probe_result" where
  "probe_host env i p u =
     (let result = init_result i p u
      in case connect env of
           CtorRaises m \<Rightarrow> finish env (result\<lparr> errors := errors result @ [''probe_error: '' @ m] \<rparr>)
         | ConnectRaises m \<Rightarrow> finish env (result\<lparr> errors := errors result @ [''probe_error: '' @ m] \<rparr>)
         | ConnectFalse \<Rightarrow> finish env (result\<lparr> errors := errors result @ [''Connection failed''] \<rparr>)
         | Connected \<Rightarrow>
             let r0 = result\<lparr> reachable := True \<rparr>;
                 r1 = read_step (rd_coils env) ''coils'' (\<lambda>v r. r\<lparr> coils := Some v \<rparr>) r0;
                 r2 = read_step (rd_discrete_inputs env) ''discrete_inputs''
                        (\<lambda>v r. r\<lparr> discrete_inputs := Some v \<rparr>) r1;
                 r3 = read_step (rd_holding_registers env) ''holding_registers''
                        (\<lambda>v r. r\<lparr> holding_registers := Some v \<rparr>) r2;
                 r4 = read_step (rd_input_registers env) ''input_registers''
                        (\<lambda>v r. r\<lparr> input_registers := Some v \<rparr>) r3;
                 r5 = (if windows_with_data (p_reads r4) \<ge> 2
                       then r4\<lparr> p_exposure := (p_exposure r4)\<lparr> broad_register_access := True \<rparr> \<rparr>
                       else r4)
             in finish env r5)"

section \<open>Index consolidation (build\_global\_index.py, build\_dnp3\_index.py)\<close>

text \<open>
  A decoded JSON document. Numbers are the integers the analyzers write; an object is
  the decoded dictionary, as a list of its keys and values.
\<close>

datatype json = JNull | JBool bool | JInt int | JStr string | JArr "json list"
  | JObj "(string \<times> json) list"

text \<open>
  A file of the reports folder: its name, and its decoded content, or \<open>None\<close> when
  \<open>open\<close> or \<open>json.load\<close> raises (unreadable file, text that is not JSON). A folder is
  its directory listing, in listing order, or \<open>None\<close> when the path does not exist.
\<close>

type_synonym report_file = "string \<times> json option"

type_synonym folder = "report_file list option"

text \<open>\<open>d.get(k, default)\<close>: only a dictionary has the method.\<close>

definition py_get :: "json \<Rightarrow> string \<Rightarrow> json \<Rightarrow> py_error + json" where
  "py_get d k dflt =
     (case d of
        JObj kvs \<Rightarrow> Inr (case map_of kvs k of None \<Rightarrow> dflt | Some v \<Rightarrow> v)
      | _ \<Rightarrow> Inl AttributeError)"

text \<open>\<open>acc += v\<close> on an integer accumulator: a bool counts as 0 or 1.\<close>

definition py_iadd :: "int \<Rightarrow> json \<Rightarrow> py_error + int" where
  "py_iadd acc v =
     (case v of
        JInt n \<Rightarrow> Inr (acc + n)
      | JBool b \<Rightarrow> Inr (acc + (if b then 1 else 0))
      | _ \<Rightarrow> Inl TypeError)"

text \<open>
  The body of the loop of \<open>collect_summary\<close> on one directory entry. The state is
  \<open>(total_pcaps, total_packets, suspect)\<close> (\<open>tot_packets\<close> below); the bare \<open>except: pass\<close> keeps whatever
  had been added before the exception.
\<close>

definition collect_file :: "nat \<times> int \<times> int \<Rightarrow> report_file \<Rightarrow> nat \<times> int \<times> int" where
  "collect_file st file =
     (case st of (total_pcaps, tot_packets, suspect) \<Rightarrow>
      case file of (fname, content) \<Rightarrow>
        if suffix ''.json'' fname then
          let total_pcaps = total_pcaps + 1
          in (case content of
                None \<Rightarrow> (total_pcaps, tot_packets, suspect)
              | Some data \<Rightarrow>
                 (case py_get data ''summary'' (JObj []) of
                    Inl e \<Rightarrow> (total_pcaps, tot_packets, suspect)
                  | Inr summ \<Rightarrow>
                     (case py_get summ ''total_packets'' (JInt 0) of
                        Inl e \<Rightarrow> (total_pcaps, tot_packets, suspect)
                      | Inr v \<Rightarrow>
                         (case py_iadd tot_packets v of
                            Inl e \<Rightarrow> (total_pcaps, tot_packets, suspect)
                          | Inr tot_packets \<Rightarrow>
                             (case py_get summ ''suspect_functions'' (JInt 0) of
                                Inl e \<Rightarrow> (total_pcaps, tot_packets, suspect)
                              | Inr w \<Rightarrow>
                                 (case py_iadd suspect w of
                                    Inl e \<Rightarrow> (total_pcaps, tot_packets, suspect)
                                  | Inr suspect \<Rightarrow> (total_pcaps, tot_packets, suspect)))))))
        else (total_pcaps, tot_packets, suspect))"

definition collect_summary :: "folder \<Rightarrow> nat \<times> int \<times> int" where
  "collect_summary fld =
     (case fld of None \<Rightarrow> (0, 0, 0)
      | Some listing \<Rightarrow> foldl collect_file (0, 0, 0) listing)"

text \<open>\<open>s.replace(old, new)\<close> for a non-empty \<open>old\<close>: every occurrence, left to right.\<close>

function py_replace :: "string \<Rightarrow> string \<Rightarrow> string \<Rightarrow> string" where
  "py_replace old new [] = []"
| "py_replace old new (c # cs) =
     (if old \<noteq> [] \<and> prefix old (c # cs)
      then new @ py_replace old new (drop (length old) (c # cs))
      else c # py_replace old new cs)"
  by pat_completeness auto
termination
  by (relation "measure (\<lambda>(old, new, s). length s)") (auto simp: Suc_lessI)

record report =
  r_json :: string
  r_html :: string
  r_meta :: json
  r_summary :: json

text \<open>
  The body of the loop of \<open>load_reports\<close>; the state is the list of reports and the
  file names of the printed warnings.
\<close>

definition load_file :: "report list \<times> string list \<Rightarrow> report_file \<Rightarrow> report list \<times> string list" where
  "load_file st file =
     (case st of (reports, warnings) \<Rightarrow>
      case file of (fname, content) \<Rightarrow>
        if suffix ''.json'' fname then
          (case content of
             None \<Rightarrow> (reports, warnings @ [fname])
           | Some data \<Rightarrow>
              (case py_get data ''meta'' (JObj []) of
                 Inl e \<Rightarrow> (reports, warnings @ [fname])
               | Inr m \<Rightarrow>
                  (case py_get data ''summary'' (JObj []) of
                     Inl e \<Rightarrow> (reports, warnings @ [fname])
                   | Inr summ \<Rightarrow>
                       (reports @ [\<lparr> r_json = fname,
                                     r_html = py_replace ''.json'' ''.html'' fname,
                                     r_meta = m, r_summary = summ \<rparr>], warnings))))
        else (reports, warnings))"

text \<open>\<open>os.listdir\<close> raises when the folder does not exist.\<close>

definition load_reports :: "folder \<Rightarrow> py_error + report list \<times> string list" where
  "load_reports fld =
     (case fld of None \<Rightarrow> Inl (OSError ''listdir'')
      | Some listing \<Rightarrow> Inr (foldl load_file ([], []) listing))"

section \<open>Target expansion (modbus\_scanner/utils.py)\<close>






text \<open>\<open>s.split(sep)\<close> for a one-character separator.\<close>

fun py_split :: "char \<Rightarrow> string \<Rightarrow> string list" where
  "py_split sep [] = [[]]"
| "py_split sep (c # cs) =
     (if c = sep then [] # py_split sep cs
      else (case py_split sep cs of
              [] \<Rightarrow> [[c]]
            | t # ts \<Rightarrow> (c # t) # ts))"













section \<open>Example inputs\<close>

definition dnp3_pkt :: "bytes \<Rightarrow> packet" where
  "dnp3_pkt payload = \<lparr> tcp = Some (1024, 20000), udp = None, ip_src = Some ''10.0.0.1'',
                         ip_dst = Some ''10.0.0.2'', raw = Some payload \<rparr>"

definition s7_pkt :: "bytes \<Rightarrow> packet" where
  "s7_pkt payload = \<lparr> tcp = Some (1024, 102), udp = None, ip_src = Some ''10.0.0.1'',
                       ip_dst = Some ''10.0.0.2'', raw = Some payload \<rparr>"

definition big_db :: bytes where
  "big_db = CHR 0x32 # CHR 0x05 # ''DB'' @ replicate 196 (CHR 0x00)"

definition huge_fw :: bytes where
  "huge_fw = CHR 0x32 # CHR 0x05 # ''Firmware'' @ replicate 790 (CHR 0x00)"

definition pktA :: packet where
  "pktA = dnp3_pkt ''..WRITE..''"

definition pktB :: packet where
  "pktB = \<lparr> tcp = None, udp = Some (20000, 4000), ip_src = Some ''10.0.0.1'',
            ip_dst = Some ''10.0.0.2'', raw = Some ''..READ...'' \<rparr>"

definition pktC :: packet where
  "pktC = \<lparr> tcp = Some (20000, 1024), udp = None, ip_src = Some [],
            ip_dst = None, raw = Some ''..OPER...'' \<rparr>"

definition env_of ::
  "connect_outcome \<Rightarrow> bool read_reply \<Rightarrow> bool read_reply \<Rightarrow> int read_reply \<Rightarrow> int read_reply
   \<Rightarrow> nat modbus_env" where
  "env_of c r1 r2 r3 r4 = \<lparr> connect = c, rd_coils = r1, rd_discrete_inputs = r2,
      rd_holding_registers = r3, rd_input_registers = r4, elapsed_ms = 12 \<rparr>"

text \<open>A persisted run summary as the DNP3 analyzer writes it.\<close>

definition run_doc :: "int \<Rightarrow> int \<Rightarrow> int \<Rightarrow> json" where
  "run_doc n_total n_matched n_suspect =
     JObj [(''meta'', JObj [(''pcap_file'', JStr ''a.pcap'')]),
           (''results'', JArr []),
           (''summary'', JObj [(''total_packets'', JInt n_total), (''dnp3_packets'', JInt n_matched),
                               (''suspect_functions'', JInt n_suspect), (''unique_hosts'', JArr [])])]"


section \<open>Auxiliary notions for the proofs\<close>

text \<open>What one frame adds to the summary of the DNP3 analyzer.\<close>

definition admitted :: "packet \<Rightarrow> dnp3_record option" where
  "admitted pkt = (if is_dnp3 pkt then parse_dnp3_packet pkt else None)"

definition matched_of :: "packet \<Rightarrow> nat" where
  "matched_of pkt = (if admitted pkt = None then 0 else 1)"

definition suspect_of :: "packet \<Rightarrow> nat" where
  "suspect_of pkt = (case admitted pkt of None \<Rightarrow> 0 | Some r \<Rightarrow> if dnp3_suspect r then 1 else 0)"

definition hosts_of :: "packet \<Rightarrow> string set" where
  "hosts_of pkt = (case admitted pkt of None \<Rightarrow> {} | Some r \<Rightarrow> {dnp3_src r, dnp3_dst r})"

text \<open>
  The invariant of the four reads of \<open>probe_host\<close>: a window that was written comes
  with the flag \<open>unauthenticated_read\<close>.
\<close>

definition covered :: "'l probe_result \<Rightarrow> bool" where
  "covered res \<longleftrightarrow>
     unauthenticated_read (p_exposure res) \<or>
     (coils (p_reads res) = None \<and> discrete_inputs (p_reads res) = None \<and>
      holding_registers (p_reads res) = None \<and> input_registers (p_reads res) = None)"

text \<open>
  The directory entries that \<open>collect_summary\<close> reads, a well-formed summary file (an
  object whose \<open>summary\<close> is an object in which \<open>total_packets\<close> and
  \<open>suspect_functions\<close>, when present, are integers), and an integer field of the
  summary of a file (0 when absent).
\<close>

definition is_json :: "report_file \<Rightarrow> bool" where
  "is_json entry = suffix ''.json'' (fst entry)"

definition int_or_absent :: "(string \<times> json) list \<Rightarrow> string \<Rightarrow> bool" where
  "int_or_absent kvs k = (case map_of kvs k of None \<Rightarrow> True | Some (JInt n) \<Rightarrow> True | Some _ \<Rightarrow> False)"

definition well_formed :: "json option \<Rightarrow> bool" where
  "well_formed content =
     (case content of
        Some (JObj kvs) \<Rightarrow>
          (case map_of kvs ''summary'' of
             Some (JObj sm) \<Rightarrow> int_or_absent sm ''total_packets'' \<and> int_or_absent sm ''suspect_functions''
           | _ \<Rightarrow> False)
      | _ \<Rightarrow> False)"

definition summary_field :: "string \<Rightarrow> report_file \<Rightarrow> int" where
  "summary_field k entry =
     (case snd entry of
        Some (JObj kvs) \<Rightarrow>
          (case map_of kvs ''summary'' of
             Some (JObj sm) \<Rightarrow> (case map_of sm k of Some (JInt n) \<Rightarrow> n | _ \<Rightarrow> 0)
           | _ \<Rightarrow> 0)
      | _ \<Rightarrow> 0)"



section \<open>Properties of the classifiers\<close>

lemma bytes_in_iff_sublist: "bytes_in n p \<longleftrightarrow> sublist n p"
  by (induction p) (auto simp: sublist_Cons_right)

lemma bytes_in_length: "bytes_in n p \<Longrightarrow> length n \<le> length p"
  by (induction p) (auto dest: prefix_length_le)

lemma short_no_hints: "length p < 3 \<Longrightarrow> filter (\<lambda>h. bytes_in h p) HINTS = []"
  by (auto simp: HINTS_def dest!: bytes_in_length)

lemma firmware_is_block_hint:
  "bytes_in ''Firmware'' p \<or> bytes_in ''Update'' p
   \<Longrightarrow> list_ex (\<lambda>h. bytes_in h p) BLOCK_HINTS"
  by (auto simp: BLOCK_HINTS_def)

lemma FUNC_MAP_names:
  "map_of FUNC_MAP b = Some n \<Longrightarrow> n \<in> {''ReadVar'', ''WriteVar'', ''Start'', ''Stop'', ''SetupComm''}"
  by (auto simp: FUNC_MAP_def split: if_splits)

lemmas eval_dnp3 = parse_dnp3_packet_def classify_app_function_def HINTS_def or_unknown_def
  DNP3_SUSPECT_FUNCS_def dnp3_pkt_def

text \<open>
  C1, as stated, fails. A four-byte DNP3 payload \<open>READ\<close> is classified \<open>UnknownDNP3\<close>,
  but its hint list is \<open>[READ]\<close>: the hints are searched whatever the length. A
  four-byte S7Comm payload that starts with \<open>0x32\<close> gives no record at all, and the
  classifier itself answers \<open>WriteVar\<close> for it, not \<open>NonS7Payload\<close>.
\<close>

theorem short_payload_hints_counterexample:
  "parse_dnp3_packet (dnp3_pkt ''READ'')
     = Some \<lparr> dnp3_src = ''10.0.0.1'', dnp3_dst = ''10.0.0.2'', dnp3_function = ''UnknownDNP3'',
              dnp3_length = 4, dnp3_hints = [''READ''], dnp3_suspect = False \<rparr> \<and>
   parse_s7_packet (s7_pkt [CHR 0x32, CHR 0x05, CHR 0x44, CHR 0x42]) = Inr None \<and>
   guess_function [CHR 0x32, CHR 0x05, CHR 0x44, CHR 0x42] = Inr ''WriteVar''"
  by (simp add: eval_dnp3 s7_pkt_def parse_s7_packet_def guess_function_def FUNC_MAP_def)

text \<open>
  C1, amended. A DNP3 payload of fewer than 8 bytes is classified \<open>UnknownDNP3\<close> and is
  not suspect; its hints are still every token of \<open>HINTS\<close> that occurs in it, and are
  empty when it has fewer than 3 bytes. For S7Comm, \<open>parse_s7_packet\<close> gives no record
  for a payload of fewer than 10 bytes or one that does not start with \<open>0x32\<close>, and
  \<open>_guess_function\<close> returns \<open>NonS7Payload\<close> for an empty payload or one that does not
  start with \<open>0x32\<close>.
\<close>

theorem short_payload_classification:
  "(raw pkt = Some payload \<and> length payload < 8 \<longrightarrow>
      (\<exists>r. parse_dnp3_packet pkt = Some r \<and> dnp3_function r = ''UnknownDNP3'' \<and>
           \<not> dnp3_suspect r \<and>
           dnp3_hints r = filter (\<lambda>h. bytes_in h payload) HINTS \<and>
           (length payload < 3 \<longrightarrow> dnp3_hints r = []))) \<and>
   (raw pkt = Some payload \<and> (length payload < 10 \<or> payload ! 0 \<noteq> CHR 0x32) \<longrightarrow>
      parse_s7_packet pkt = Inr None) \<and>
   (payload = [] \<or> payload ! 0 \<noteq> CHR 0x32 \<longrightarrow> guess_function payload = Inr ''NonS7Payload'')"
proof (intro conjI impI)
  assume a: "raw pkt = Some payload \<and> length payload < 8"
  then have f: "classify_app_function payload = ''UnknownDNP3''"
    by (simp add: classify_app_function_def)
  show "\<exists>r. parse_dnp3_packet pkt = Some r \<and> dnp3_function r = ''UnknownDNP3'' \<and>
           \<not> dnp3_suspect r \<and>
           dnp3_hints r = filter (\<lambda>h. bytes_in h payload) HINTS \<and>
           (length payload < 3 \<longrightarrow> dnp3_hints r = [])"
    using a f by (simp add: parse_dnp3_packet_def DNP3_SUSPECT_FUNCS_def short_no_hints)
next
  assume "raw pkt = Some payload \<and> (length payload < 10 \<or> payload ! 0 \<noteq> CHR 0x32)"
  then show "parse_s7_packet pkt = Inr None"
    by (auto simp: parse_s7_packet_def)
next
  assume "payload = [] \<or> payload ! 0 \<noteq> CHR 0x32"
  then show "guess_function payload = Inr ''NonS7Payload''"
    by (auto simp: guess_function_def)
qed

theorem short_payload_classification_witness:
  "raw (dnp3_pkt ''DNP'') = Some ''DNP'' \<and> length ''DNP'' < 8 \<and> ''DNP'' ! 0 \<noteq> CHR 0x32 \<and>
   parse_dnp3_packet (dnp3_pkt ''DNP'')
     = Some \<lparr> dnp3_src = ''10.0.0.1'', dnp3_dst = ''10.0.0.2'', dnp3_function = ''UnknownDNP3'',
              dnp3_length = 3, dnp3_hints = [''DNP''], dnp3_suspect = False \<rparr> \<and>
   parse_s7_packet (dnp3_pkt ''DNP'') = Inr None \<and>
   guess_function ''DNP'' = Inr ''NonS7Payload''"
  using short_payload_classification [of "dnp3_pkt ''DNP''" "''DNP''"]
  by (simp add: eval_dnp3)

text \<open>
  C5. An S7Comm payload of at least 200 bytes that starts with \<open>0x32\<close>, has \<open>0x05\<close> as
  its second byte and contains \<open>DB\<close> is classified \<open>DownloadBlock\<close>, not \<open>WriteVar\<close>,
  by the classifier and in the record that \<open>parse_s7_packet\<close> builds.
\<close>

theorem download_block_precedes_byte_table:
  assumes "length payload \<ge> 200" and "payload ! 0 = CHR 0x32" and "payload ! 1 = CHR 0x05"
    and "bytes_in ''DB'' payload"
  shows "guess_function payload = Inr ''DownloadBlock'' \<and>
         guess_function payload \<noteq> Inr ''WriteVar'' \<and>
         (raw pkt = Some payload \<longrightarrow>
            (\<exists>r. parse_s7_packet pkt = Inr (Some r) \<and> s7_function_code r = ''DownloadBlock''))"
proof -
  have ne: "payload \<noteq> []" using assms(1) by auto
  have g: "guess_function payload = Inr ''DownloadBlock''"
    unfolding guess_function_def Let_def using assms ne
    by (simp add: BLOCK_HINTS_def)
  show ?thesis using g assms(1,2) by (simp add: parse_s7_packet_def)
qed

theorem download_block_precedes_byte_table_witness:
  "length big_db \<ge> 200 \<and> big_db ! 0 = CHR 0x32 \<and> big_db ! 1 = CHR 0x05 \<and>
   bytes_in ''DB'' big_db \<and> map_of FUNC_MAP (big_db ! 1) = Some ''WriteVar'' \<and>
   raw (s7_pkt big_db) = Some big_db \<and>
   guess_function big_db = Inr ''DownloadBlock'' \<and>
   (\<exists>r. parse_s7_packet (s7_pkt big_db) = Inr (Some r) \<and> s7_function_code r = ''DownloadBlock'')"
proof -
  have h: "length big_db \<ge> 200" "big_db ! 0 = CHR 0x32" "big_db ! 1 = CHR 0x05"
    "bytes_in ''DB'' big_db"
    by (simp_all add: big_db_def)
  have m: "map_of FUNC_MAP (big_db ! 1) = Some ''WriteVar''"
    using h(3) by (simp add: FUNC_MAP_def)
  have r: "raw (s7_pkt big_db) = Some big_db"
    by (simp add: s7_pkt_def)
  show ?thesis
    using download_block_precedes_byte_table [OF h, of "s7_pkt big_db"] h m r by simp
qed

text \<open>
  C9. The S7Comm classifier never returns \<open>FirmwareUpdate\<close>: a payload of 800 bytes or
  more that contains \<open>Firmware\<close> or \<open>Update\<close> has already been classified as
  \<open>DownloadBlock\<close> by the earlier rule, since both tokens are block hints and 800
  bytes are more than 200.
\<close>

theorem guess_function_never_FirmwareUpdate:
  "guess_function payload \<noteq> Inr ''FirmwareUpdate''"
proof -
  have base: "map_of FUNC_MAP b \<noteq> Some ''FirmwareUpdate''" for b
    using FUNC_MAP_names [of b "''FirmwareUpdate''"] by auto
  have hint: "list_ex (\<lambda>h. bytes_in h payload) BLOCK_HINTS"
    if "bytes_in ''Firmware'' payload \<or> bytes_in ''Update'' payload"
    using that by (rule firmware_is_block_hint)
  show ?thesis
    unfolding guess_function_def Let_def
    using base [of "payload ! 1"] hint
    by (auto split: if_splits)
qed

theorem guess_function_never_FirmwareUpdate_witness:
  "length huge_fw = 800 \<and> bytes_in ''Firmware'' huge_fw \<and>
   guess_function huge_fw \<noteq> Inr ''FirmwareUpdate'' \<and>
   guess_function huge_fw = Inr ''DownloadBlock''"
  using guess_function_never_FirmwareUpdate [of huge_fw]
  by (simp add: huge_fw_def guess_function_def BLOCK_HINTS_def)

section \<open>Properties of the run aggregation\<close>

lemma parse_dnp3_suspect:
  "parse_dnp3_packet pkt = Some r \<Longrightarrow> dnp3_suspect r = (dnp3_function r \<in> DNP3_SUSPECT_FUNCS)"
  by (auto simp: parse_dnp3_packet_def Let_def split: option.splits)

lemma dnp3_step_count:
  assumes "suspect_functions s = length (filter (\<lambda>r. dnp3_function r \<in> DNP3_SUSPECT_FUNCS) (results s))"
  shows "suspect_functions (dnp3_step s pkt) =
         length (filter (\<lambda>r. dnp3_function r \<in> DNP3_SUSPECT_FUNCS) (results (dnp3_step s pkt)))"
  using assms
  by (auto simp: dnp3_step_def Let_def dest: parse_dnp3_suspect split: option.splits)

lemma dnp3_fold_count:
  "suspect_functions s = length (filter (\<lambda>r. dnp3_function r \<in> DNP3_SUSPECT_FUNCS) (results s))
   \<Longrightarrow> suspect_functions (foldl dnp3_step s pkts) =
       length (filter (\<lambda>r. dnp3_function r \<in> DNP3_SUSPECT_FUNCS) (results (foldl dnp3_step s pkts)))"
  by (induction pkts arbitrary: s) (simp_all add: dnp3_step_count)

lemma guess_function_long: "length p \<ge> 2 \<Longrightarrow> \<exists>f. guess_function p = Inr f"
  by (auto simp: guess_function_def Let_def)

lemma parse_s7_total: "\<exists>r. parse_s7_packet pkt = Inr r"
proof (cases "raw pkt")
  case None
  then show ?thesis by (simp add: parse_s7_packet_def)
next
  case (Some p)
  show ?thesis
  proof (cases "length p < 10 \<or> p ! 0 \<noteq> CHR 0x32")
    case True
    then show ?thesis using Some by (auto simp: parse_s7_packet_def)
  next
    case False
    then have "length p \<ge> 2" by simp
    then obtain f where "guess_function p = Inr f" using guess_function_long by blast
    then show ?thesis using Some False by (simp add: parse_s7_packet_def)
  qed
qed

lemma s7_step_total: "\<exists>s'. s7_step s pkt = Inr s'"
  using parse_s7_total [of pkt]
  by (auto simp: s7_step_def Let_def split: option.splits)

lemma s7_step_count:
  assumes "suspect_functions s = length (filter (\<lambda>r. s7_function_code r \<in> S7_SUSPECT_FUNCS) (results s))"
    and "s7_step s pkt = Inr s'"
  shows "suspect_functions s' = length (filter (\<lambda>r. s7_function_code r \<in> S7_SUSPECT_FUNCS) (results s'))"
  using assms
  by (auto simp: s7_step_def Let_def S7_SUSPECT_FUNCS_def split: option.splits sum.splits if_splits)

lemma s7_loop_count:
  "suspect_functions s = length (filter (\<lambda>r. s7_function_code r \<in> S7_SUSPECT_FUNCS) (results s))
   \<Longrightarrow> \<exists>s'. s7_loop s pkts = Inr s' \<and>
       suspect_functions s' = length (filter (\<lambda>r. s7_function_code r \<in> S7_SUSPECT_FUNCS) (results s'))"
proof (induction pkts arbitrary: s)
  case Nil
  then show ?case by simp
next
  case (Cons pkt pkts)
  obtain s1 where s1: "s7_step s pkt = Inr s1" using s7_step_total by blast
  from s7_step_count [OF Cons.prems s1] Cons.IH [of s1] s1 show ?case by simp
qed

lemmas eval_dnp3_run = dnp3_analyze_pcap_def seal_def init_state_def dnp3_step_def is_dnp3_def
  port_match_def pktA_def pktB_def pktC_def Let_def

lemmas eval_s7_run = s7_analyze_pcap_def seal_def init_state_def s7_step_def port_match_def
  s7_pkt_def parse_s7_packet_def guess_function_def BLOCK_HINTS_def FUNC_MAP_def or_unknown_def
  Let_def

text \<open>
  C6. The \<open>suspect\<close> field of a DNP3 record is true exactly when its operation name is
  in the DNP3 suspect set, and the analyzer's suspect counter is the number of records
  whose name is in that set. The S7Comm record has no such field: the analyzer decides
  at the counter, where a record counts exactly when its operation name is in the
  S7Comm suspect set (and the run never raises).
\<close>

theorem suspect_iff_member_of_suspect_set:
  "(\<forall>r. parse_dnp3_packet pkt = Some r \<longrightarrow>
        (dnp3_suspect r \<longleftrightarrow> dnp3_function r \<in> {''Operate'', ''Write'', ''EnableUnsolicited'',
                               ''ColdRestart'', ''WarmRestart'', ''ClearRestart''})) \<and>
   suspect_functions (dnp3_analyze_pcap pkts) =
     length (filter (\<lambda>r. dnp3_function r \<in> {''Operate'', ''Write'', ''EnableUnsolicited'',
                               ''ColdRestart'', ''WarmRestart'', ''ClearRestart''})
               (results (dnp3_analyze_pcap pkts))) \<and>
   (\<exists>rep. s7_analyze_pcap pkts = Inr rep \<and>
      suspect_functions rep =
        length (filter (\<lambda>r. s7_function_code r \<in> {''WriteVar'', ''Start'', ''Stop'', ''DownloadBlock'',
                       ''CopyRamToRom'', ''FirmwareUpdate''}) (results rep)))"
proof (intro conjI allI impI)
  fix r assume "parse_dnp3_packet pkt = Some r"
  then show "dnp3_suspect r \<longleftrightarrow> dnp3_function r \<in> {''Operate'', ''Write'', ''EnableUnsolicited'',
                               ''ColdRestart'', ''WarmRestart'', ''ClearRestart''}"
    using parse_dnp3_suspect [of pkt r] by (simp add: DNP3_SUSPECT_FUNCS_def)
next
  have "suspect_functions (foldl dnp3_step init_state pkts) =
       length (filter (\<lambda>r. dnp3_function r \<in> DNP3_SUSPECT_FUNCS) (results (foldl dnp3_step init_state pkts)))"
    by (rule dnp3_fold_count) (simp add: init_state_def)
  then show "suspect_functions (dnp3_analyze_pcap pkts) =
     length (filter (\<lambda>r. dnp3_function r \<in> {''Operate'', ''Write'', ''EnableUnsolicited'',
                               ''ColdRestart'', ''WarmRestart'', ''ClearRestart''})
               (results (dnp3_analyze_pcap pkts)))"
    by (simp add: dnp3_analyze_pcap_def seal_def DNP3_SUSPECT_FUNCS_def)
next
  have "\<exists>s'. s7_loop init_state pkts = Inr s' \<and>
       suspect_functions s' = length (filter (\<lambda>r. s7_function_code r \<in> S7_SUSPECT_FUNCS) (results s'))"
    by (rule s7_loop_count) (simp add: init_state_def)
  then show "\<exists>rep. s7_analyze_pcap pkts = Inr rep \<and>
      suspect_functions rep =
        length (filter (\<lambda>r. s7_function_code r \<in> {''WriteVar'', ''Start'', ''Stop'', ''DownloadBlock'',
                       ''CopyRamToRom'', ''FirmwareUpdate''}) (results rep))"
    by (auto simp: s7_analyze_pcap_def seal_def S7_SUSPECT_FUNCS_def)
qed

theorem suspect_iff_member_of_suspect_set_witness:
  "parse_dnp3_packet pktA
     = Some \<lparr> dnp3_src = ''10.0.0.1'', dnp3_dst = ''10.0.0.2'', dnp3_function = ''Write'',
              dnp3_length = 9, dnp3_hints = [''WRITE''], dnp3_suspect = True \<rparr> \<and>
   parse_dnp3_packet pktB
     = Some \<lparr> dnp3_src = ''10.0.0.1'', dnp3_dst = ''10.0.0.2'', dnp3_function = ''Read'',
              dnp3_length = 9, dnp3_hints = [''READ''], dnp3_suspect = False \<rparr> \<and>
   suspect_functions (dnp3_analyze_pcap [pktA, pktB, pktC]) = 2 \<and>
   map dnp3_function (results (dnp3_analyze_pcap [pktA, pktB, pktC])) = [''Write'', ''Read'', ''Operate''] \<and>
   (\<exists>rep. s7_analyze_pcap [s7_pkt big_db, s7_pkt ''2.........''] = Inr rep \<and>
      suspect_functions rep = 1 \<and>
      map s7_function_code (results rep) = [''DownloadBlock'', ''Unknown''])"
  using suspect_iff_member_of_suspect_set [of pktA "[pktA, pktB, pktC]"]
  by (simp add: eval_dnp3 eval_dnp3_run eval_s7_run big_db_def)

section \<open>Order of the fold\<close>

lemma dnp3_step_counters:
  "total_packets (dnp3_step s pkt) = total_packets s + 1"
  "protocol_packets (dnp3_step s pkt) = protocol_packets s + matched_of pkt"
  "suspect_functions (dnp3_step s pkt) = suspect_functions s + suspect_of pkt"
  "unique_hosts (dnp3_step s pkt) = unique_hosts s \<union> hosts_of pkt"
  by (auto simp: dnp3_step_def admitted_def matched_of_def suspect_of_def hosts_of_def Let_def
      split: option.splits)

lemma dnp3_fold_counters:
  "total_packets (foldl dnp3_step s pkts) = total_packets s + size (mset pkts)"
  "protocol_packets (foldl dnp3_step s pkts) =
     protocol_packets s + sum_mset (image_mset matched_of (mset pkts))"
  "suspect_functions (foldl dnp3_step s pkts) =
     suspect_functions s + sum_mset (image_mset suspect_of (mset pkts))"
  "unique_hosts (foldl dnp3_step s pkts) =
     unique_hosts s \<union> (\<Union>p \<in> set_mset (mset pkts). hosts_of p)"
  by (induction pkts arbitrary: s) (auto simp: dnp3_step_counters)

text \<open>
  C8. The summary of the DNP3 analyzer does not depend on the order of the frames: two
  sequences that are permutations of each other give the same three counters and the
  same set of unique hosts.
\<close>

theorem dnp3_fold_order_insensitive:
  assumes "mset pkts = mset pkts'"
  shows "total_packets (dnp3_analyze_pcap pkts) = total_packets (dnp3_analyze_pcap pkts') \<and>
         protocol_packets (dnp3_analyze_pcap pkts) = protocol_packets (dnp3_analyze_pcap pkts') \<and>
         suspect_functions (dnp3_analyze_pcap pkts) = suspect_functions (dnp3_analyze_pcap pkts') \<and>
         unique_hosts (dnp3_analyze_pcap pkts) = unique_hosts (dnp3_analyze_pcap pkts')"
  unfolding dnp3_analyze_pcap_def seal_def
  by (simp add: dnp3_fold_counters assms)

lemma run_ABC:
  "total_packets (dnp3_analyze_pcap [pktA, pktB, pktC]) = 3 \<and>
   protocol_packets (dnp3_analyze_pcap [pktA, pktB, pktC]) = 3 \<and>
   suspect_functions (dnp3_analyze_pcap [pktA, pktB, pktC]) = 2 \<and>
   unique_hosts (dnp3_analyze_pcap [pktA, pktB, pktC]) = {''10.0.0.1'', ''10.0.0.2'', ''unknown''}"
  by (simp add: eval_dnp3 eval_dnp3_run) auto

theorem dnp3_fold_order_insensitive_witness:
  "mset [pktA, pktB, pktC] = mset [pktC, pktA, pktB] \<and>
   results (dnp3_analyze_pcap [pktA, pktB, pktC]) \<noteq> results (dnp3_analyze_pcap [pktC, pktA, pktB]) \<and>
   total_packets (dnp3_analyze_pcap [pktC, pktA, pktB]) = 3 \<and>
   protocol_packets (dnp3_analyze_pcap [pktC, pktA, pktB]) = 3 \<and>
   suspect_functions (dnp3_analyze_pcap [pktC, pktA, pktB]) = 2 \<and>
   unique_hosts (dnp3_analyze_pcap [pktC, pktA, pktB]) = {''10.0.0.1'', ''10.0.0.2'', ''unknown''}"
proof -
  have m: "mset [pktA, pktB, pktC] = mset [pktC, pktA, pktB]"
    by (simp add: add.commute)
  have r: "results (dnp3_analyze_pcap [pktA, pktB, pktC])
           \<noteq> results (dnp3_analyze_pcap [pktC, pktA, pktB])"
    by (simp add: eval_dnp3 eval_dnp3_run)
  show ?thesis
    using dnp3_fold_order_insensitive [OF m] run_ABC m r by simp
qed

section \<open>Properties of the probe\<close>

lemma read_step_fields [simp]:
  "reachable (read_step rr l st res) = reachable res"
  "broad_register_access (p_exposure (read_step rr l st res)) = broad_register_access (p_exposure res)"
  by (auto simp: read_step_def split: read_reply.splits)

lemma finish_fields [simp]:
  "reachable (finish env res) = reachable res"
  "p_exposure (finish env res) = p_exposure res"
  "p_reads (finish env res) = p_reads res"
  by (simp_all add: finish_def)

lemma covered_coils:
  "covered res \<Longrightarrow> covered (read_step rr l (\<lambda>v r. r\<lparr> coils := Some v \<rparr>) res)"
  by (cases rr) (auto simp: covered_def read_step_def)

lemma covered_discrete:
  "covered res \<Longrightarrow> covered (read_step rr l (\<lambda>v r. r\<lparr> discrete_inputs := Some v \<rparr>) res)"
  by (cases rr) (auto simp: covered_def read_step_def)

lemma covered_holding:
  "covered res \<Longrightarrow> covered (read_step rr l (\<lambda>v r. r\<lparr> holding_registers := Some v \<rparr>) res)"
  by (cases rr) (auto simp: covered_def read_step_def)

lemma covered_input:
  "covered res \<Longrightarrow> covered (read_step rr l (\<lambda>v r. r\<lparr> input_registers := Some v \<rparr>) res)"
  by (cases rr) (auto simp: covered_def read_step_def)

lemma covered_windows:
  "covered res \<Longrightarrow> 1 \<le> windows_with_data (p_reads res) \<Longrightarrow> unauthenticated_read (p_exposure res)"
  by (auto simp: covered_def windows_with_data_def has_data_def)

lemma probe_host_Connected:
  assumes "connect env = Connected"
  shows "\<exists>r4. covered r4 \<and> reachable r4 \<and> \<not> broad_register_access (p_exposure r4) \<and>
           probe_host env i p u =
             finish env (if 2 \<le> windows_with_data (p_reads r4)
                         then r4\<lparr> p_exposure := (p_exposure r4)\<lparr> broad_register_access := True \<rparr> \<rparr>
                         else r4)"
proof -
  define r0 :: "'a probe_result" where "r0 = (init_result i p u)\<lparr> reachable := True \<rparr>"
  define r1 where "r1 = read_step (rd_coils env) ''coils'' (\<lambda>v r. r\<lparr> coils := Some v \<rparr>) r0"
  define r2 where "r2 = read_step (rd_discrete_inputs env) ''discrete_inputs''
                        (\<lambda>v r. r\<lparr> discrete_inputs := Some v \<rparr>) r1"
  define r3 where "r3 = read_step (rd_holding_registers env) ''holding_registers''
                        (\<lambda>v r. r\<lparr> holding_registers := Some v \<rparr>) r2"
  define r4 where "r4 = read_step (rd_input_registers env) ''input_registers''
                        (\<lambda>v r. r\<lparr> input_registers := Some v \<rparr>) r3"
  have "covered r0" by (simp add: r0_def covered_def init_result_def)
  then have "covered r1" unfolding r1_def by (rule covered_coils)
  then have "covered r2" unfolding r2_def by (rule covered_discrete)
  then have "covered r3" unfolding r3_def by (rule covered_holding)
  then have c: "covered r4" unfolding r4_def by (rule covered_input)
  have r: "reachable r4" by (simp add: r4_def r3_def r2_def r1_def r0_def)
  have nb: "\<not> broad_register_access (p_exposure r4)"
    by (simp add: r4_def r3_def r2_def r1_def r0_def init_result_def)
  have "probe_host env i p u =
             finish env (if 2 \<le> windows_with_data (p_reads r4)
                         then r4\<lparr> p_exposure := (p_exposure r4)\<lparr> broad_register_access := True \<rparr> \<rparr>
                         else r4)"
    using assms by (simp add: probe_host_def Let_def r4_def r3_def r2_def r1_def r0_def)
  with c r nb show ?thesis by blast
qed

lemma probe_host_not_Connected:
  assumes "connect env \<noteq> Connected"
  shows "\<exists>e. probe_host env i p u = finish env ((init_result i p u)\<lparr> errors := [e] \<rparr>)"
  using assms by (cases "connect env") (auto simp: probe_host_def Let_def init_result_def)

lemmas eval_probe = probe_host_def env_of_def init_result_def read_step_def finish_def
  windows_with_data_def has_data_def Let_def

text \<open>
  C7. In the result of \<open>probe_host\<close>, \<open>broad_register_access\<close> is true exactly when at
  least two of the four read windows are non-empty lists.
\<close>

theorem broad_register_access_iff_two_windows:
  "broad_register_access (p_exposure (probe_host env i p u)) \<longleftrightarrow>
     2 \<le> windows_with_data (p_reads (probe_host env i p u))"
proof (cases "connect env = Connected")
  case True
  from probe_host_Connected [OF True, of i p u] obtain r4 where
    nb: "\<not> broad_register_access (p_exposure r4)" and
    eq: "probe_host env i p u =
             finish env (if 2 \<le> windows_with_data (p_reads r4)
                         then r4\<lparr> p_exposure := (p_exposure r4)\<lparr> broad_register_access := True \<rparr> \<rparr>
                         else r4)" by blast
  show ?thesis using nb by (simp add: eq)
next
  case False
  from probe_host_not_Connected [OF False, of i p u] obtain e where
    "probe_host env i p u = finish env ((init_result i p u)\<lparr> errors := [e] \<rparr>)" by blast
  then show ?thesis
    by (simp add: init_result_def windows_with_data_def has_data_def)
qed

theorem broad_register_access_iff_two_windows_witness:
  "windows_with_data (p_reads (probe_host
      (env_of Connected NoData (Raises ''timeout'') (Reply None) (Reply (Some []))) ''10.0.0.5'' 502 1)) = 0 \<and>
   \<not> broad_register_access (p_exposure (probe_host
      (env_of Connected NoData (Raises ''timeout'') (Reply None) (Reply (Some []))) ''10.0.0.5'' 502 1)) \<and>
   windows_with_data (p_reads (probe_host
      (env_of Connected (Reply (Some [True])) NoData NoData NoData) ''10.0.0.5'' 502 1)) = 1 \<and>
   \<not> broad_register_access (p_exposure (probe_host
      (env_of Connected (Reply (Some [True])) NoData NoData NoData) ''10.0.0.5'' 502 1)) \<and>
   windows_with_data (p_reads (probe_host
      (env_of Connected (Reply (Some [True])) NoData (Reply (Some [7])) NoData) ''10.0.0.5'' 502 1)) = 2 \<and>
   broad_register_access (p_exposure (probe_host
      (env_of Connected (Reply (Some [True])) NoData (Reply (Some [7])) NoData) ''10.0.0.5'' 502 1)) \<and>
   windows_with_data (p_reads (probe_host
      (env_of Connected (Reply (Some [True])) (Reply (Some [False])) (Reply (Some [7])) (Reply (Some [9])))
      ''10.0.0.5'' 502 1)) = 4 \<and>
   broad_register_access (p_exposure (probe_host
      (env_of Connected (Reply (Some [True])) (Reply (Some [False])) (Reply (Some [7])) (Reply (Some [9])))
      ''10.0.0.5'' 502 1))"
  using broad_register_access_iff_two_windows
          [of "env_of Connected NoData (Raises ''timeout'') (Reply None) (Reply (Some []))" "''10.0.0.5''" 502 1]
        broad_register_access_iff_two_windows
          [of "env_of Connected (Reply (Some [True])) NoData NoData NoData" "''10.0.0.5''" 502 1]
        broad_register_access_iff_two_windows
          [of "env_of Connected (Reply (Some [True])) NoData (Reply (Some [7])) NoData" "''10.0.0.5''" 502 1]
        broad_register_access_iff_two_windows
          [of "env_of Connected (Reply (Some [True])) (Reply (Some [False])) (Reply (Some [7])) (Reply (Some [9]))"
              "''10.0.0.5''" 502 1]
  by (simp add: eval_probe)

text \<open>
  C10. In the result of \<open>probe_host\<close>: if \<open>broad_register_access\<close> is true then
  \<open>unauthenticated_read\<close> and \<open>reachable\<close> are true; if \<open>reachable\<close> is false then the
  four read windows are absent and both exposure flags are false.
\<close>

theorem probe_result_flag_chain:
  "(broad_register_access (p_exposure (probe_host env i p u)) \<longrightarrow>
      unauthenticated_read (p_exposure (probe_host env i p u)) \<and> reachable (probe_host env i p u)) \<and>
   (\<not> reachable (probe_host env i p u) \<longrightarrow>
      coils (p_reads (probe_host env i p u)) = None \<and>
      discrete_inputs (p_reads (probe_host env i p u)) = None \<and>
      holding_registers (p_reads (probe_host env i p u)) = None \<and>
      input_registers (p_reads (probe_host env i p u)) = None \<and>
      \<not> unauthenticated_read (p_exposure (probe_host env i p u)) \<and>
      \<not> broad_register_access (p_exposure (probe_host env i p u)))"
proof (cases "connect env = Connected")
  case True
  from probe_host_Connected [OF True, of i p u] obtain r4 where
    c: "covered r4" and r: "reachable r4" and nb: "\<not> broad_register_access (p_exposure r4)" and
    eq: "probe_host env i p u =
             finish env (if 2 \<le> windows_with_data (p_reads r4)
                         then r4\<lparr> p_exposure := (p_exposure r4)\<lparr> broad_register_access := True \<rparr> \<rparr>
                         else r4)" by blast
  show ?thesis
    using covered_windows [OF c] r nb by (simp add: eq)
next
  case False
  from probe_host_not_Connected [OF False, of i p u] obtain e where
    "probe_host env i p u = finish env ((init_result i p u)\<lparr> errors := [e] \<rparr>)" by blast
  then show ?thesis by (simp add: init_result_def)
qed

theorem probe_result_flag_chain_witness:
  "broad_register_access (p_exposure (probe_host
      (env_of Connected (Reply (Some [True])) NoData (Reply (Some [7])) NoData) ''10.0.0.5'' 502 1)) \<and>
   unauthenticated_read (p_exposure (probe_host
      (env_of Connected (Reply (Some [True])) NoData (Reply (Some [7])) NoData) ''10.0.0.5'' 502 1)) \<and>
   reachable (probe_host
      (env_of Connected (Reply (Some [True])) NoData (Reply (Some [7])) NoData) ''10.0.0.5'' 502 1) \<and>
   \<not> reachable (probe_host
      (env_of ConnectFalse (Reply (Some [True])) NoData (Reply (Some [7])) NoData) ''10.0.0.6'' 502 1) \<and>
   probe_host (env_of ConnectFalse (Reply (Some [True])) NoData (Reply (Some [7])) NoData) ''10.0.0.6'' 502 1
     = \<lparr> ip = ''10.0.0.6'', port = 502, unit_id = 1, reachable = False, latency_ms = Some 12,
         p_reads = \<lparr> coils = None, discrete_inputs = None, holding_registers = None,
                     input_registers = None \<rparr>,
         p_exposure = \<lparr> unauthenticated_read = False, broad_register_access = False \<rparr>,
         errors = [''Connection failed''] \<rparr>"
  using probe_result_flag_chain
          [of "env_of Connected (Reply (Some [True])) NoData (Reply (Some [7])) NoData" "''10.0.0.5''" 502 1]
        probe_result_flag_chain
          [of "env_of ConnectFalse (Reply (Some [True])) NoData (Reply (Some [7])) NoData" "''10.0.0.6''" 502 1]
  by (simp add: eval_probe)

section \<open>Properties of the index consolidation\<close>

lemma wf_cases:
  assumes "well_formed content"
  obtains kvs sm where "content = Some (JObj kvs)" "map_of kvs ''summary'' = Some (JObj sm)"
    "int_or_absent sm ''total_packets''" "int_or_absent sm ''suspect_functions''"
proof (cases content)
  case None
  then show ?thesis using assms by (simp add: well_formed_def)
next
  case (Some data)
  show ?thesis
  proof (cases data)
    case (JObj kvs)
    show ?thesis
    proof (cases "map_of kvs ''summary''")
      case None
      then show ?thesis using assms Some JObj by (simp add: well_formed_def)
    next
      case (Some summ)
      then show ?thesis using assms \<open>content = Some data\<close> JObj that
        by (cases summ) (simp_all add: well_formed_def)
    qed
  qed (use assms Some in \<open>simp_all add: well_formed_def\<close>)
qed


lemma py_get_int:
  "int_or_absent sm k \<Longrightarrow>
   py_get (JObj sm) k (JInt 0) = Inr (JInt (case map_of sm k of Some (JInt n) \<Rightarrow> n | _ \<Rightarrow> 0))"
  by (auto simp: py_get_def int_or_absent_def split: option.splits json.splits)

lemma summary_field_eq:
  "map_of kvs ''summary'' = Some (JObj sm) \<Longrightarrow>
   summary_field k (fname, Some (JObj kvs)) = (case map_of sm k of Some (JInt n) \<Rightarrow> n | _ \<Rightarrow> 0)"
  by (simp add: summary_field_def)

lemma collect_file_well_formed:
  assumes "is_json entry" and "well_formed (snd entry)"
  shows "collect_file (n, t, s) entry =
           (n + 1, t + summary_field ''total_packets'' entry, s + summary_field ''suspect_functions'' entry)"
proof -
  obtain fname content where f: "entry = (fname, content)" by (cases entry)
  from assms(2) f have "well_formed content" by simp
  then obtain kvs sm where
    c: "content = Some (JObj kvs)" and sm: "map_of kvs ''summary'' = Some (JObj sm)"
    and i1: "int_or_absent sm ''total_packets''" and i2: "int_or_absent sm ''suspect_functions''"
    by (rule wf_cases)
  have g0: "py_get (JObj kvs) ''summary'' (JObj []) = Inr (JObj sm)"
    by (simp add: py_get_def sm)
  have j: "suffix ''.json'' fname" using assms(1) by (simp add: is_json_def f)
  show ?thesis
    unfolding f c collect_file_def
    by (simp add: j g0 py_get_int [OF i1] py_get_int [OF i2] py_iadd_def summary_field_eq [OF sm])
qed


lemma collect_file_other:
  "\<not> is_json entry \<Longrightarrow> collect_file (n, t, s) entry = (n, t, s)"
  by (cases entry) (simp add: collect_file_def is_json_def)

lemma foldl_collect_well_formed:
  assumes "\<forall>entry \<in> set listing. is_json entry \<longrightarrow> well_formed (snd entry)"
  shows "foldl collect_file (n, t, s) listing =
           (n + length (filter is_json listing),
            t + sum_list (map (summary_field ''total_packets'') (filter is_json listing)),
            s + sum_list (map (summary_field ''suspect_functions'') (filter is_json listing)))"
  using assms
proof (induction listing arbitrary: n t s)
  case Nil
  then show ?case by simp
next
  case (Cons entry listing)
  show ?case
  proof (cases "is_json entry")
    case True
    then have "well_formed (snd entry)" using Cons.prems by simp
    from collect_file_well_formed [OF True this] Cons.IH Cons.prems True
    show ?thesis by (simp add: algebra_simps)
  next
    case False
    from collect_file_other [OF False] Cons.IH Cons.prems False
    show ?thesis by simp
  qed
qed

lemmas eval_collect = collect_summary_def collect_file_def py_get_def py_iadd_def run_doc_def Let_def
  suffix_to_prefix

text \<open>
  C2, on the code. A folder with one well-formed summary and one file that cannot be
  decoded: \<open>collect_summary\<close> does not raise and takes the packet and suspect totals
  from the well-formed file, but it counts the undecodable file among the pcaps
  processed and records nothing about it, while \<open>load_reports\<close> on the same folder
  keeps the well-formed report only and records a warning for the other. A file whose
  \<open>total_packets\<close> is a number and whose \<open>suspect_functions\<close> is a string has
  its \<open>total_packets\<close> added before the exception.
\<close>

theorem collect_summary_counts_malformed_file:
  "collect_summary (Some [(''good.json'', Some (run_doc 10 4 2)), (''bad.json'', None)]) = (2, 10, 2) \<and>
   load_reports (Some [(''good.json'', Some (run_doc 10 4 2)), (''bad.json'', None)])
     = Inr ([\<lparr> r_json = ''good.json'', r_html = ''good.html'',
                 r_meta = JObj [(''pcap_file'', JStr ''a.pcap'')],
                 r_summary = JObj [(''total_packets'', JInt 10), (''dnp3_packets'', JInt 4),
                               (''suspect_functions'', JInt 2), (''unique_hosts'', JArr [])] \<rparr>],
            [''bad.json'']) \<and>
   collect_summary (Some [(''good.json'', Some (run_doc 10 4 2)),
       (''half.json'', Some (JObj [(''summary'', JObj [(''total_packets'', JInt 5),
                                     (''suspect_functions'', JStr ''many'')])]))]) = (2, 15, 2)"
  by (simp add: eval_collect load_reports_def load_file_def)

text \<open>
  C3, as stated, fails: the consolidated totals of \<open>collect_summary\<close> are the number
  of files, the sum of \<open>total_packets\<close> and the sum of \<open>suspect_functions\<close>. Two
  summaries with 4 and 5 protocol packets give \<open>(2, 30, 3)\<close>: the sum 9 of the
  protocol-packets field is not among the totals.
\<close>

theorem protocol_packets_not_consolidated_counterexample:
  "collect_summary (Some [(''a.json'', Some (run_doc 10 4 1)), (''b.json'', Some (run_doc 20 5 2))])
     = (2, 30, 3) \<and>
   summary_field ''dnp3_packets'' (''a.json'', Some (run_doc 10 4 1))
     + summary_field ''dnp3_packets'' (''b.json'', Some (run_doc 20 5 2)) = 9"
  by (simp add: eval_collect summary_field_def)

text \<open>
  C3, amended. For a folder whose \<open>.json\<close> files are all well-formed, the totals of
  \<open>collect_summary\<close> are the number of \<open>.json\<close> files, the sum of their
  \<open>total_packets\<close> fields and the sum of their \<open>suspect_functions\<close> fields (an absent
  field counting 0). No other field is consolidated.
\<close>

theorem collect_summary_totals:
  assumes "\<forall>entry \<in> set listing. is_json entry \<longrightarrow> well_formed (snd entry)"
  shows "collect_summary (Some listing) =
           (length (filter is_json listing),
            sum_list (map (summary_field ''total_packets'') (filter is_json listing)),
            sum_list (map (summary_field ''suspect_functions'') (filter is_json listing)))"
  using foldl_collect_well_formed [OF assms, of 0 0 0]
  by (simp add: collect_summary_def)

theorem collect_summary_totals_witness:
  "well_formed (Some (run_doc 10 4 1)) \<and> well_formed (Some (run_doc 20 5 2)) \<and>
   \<not> is_json (''notes.txt'', None) \<and>
   collect_summary (Some [(''a.json'', Some (run_doc 10 4 1)), (''notes.txt'', None),
                          (''b.json'', Some (run_doc 20 5 2))]) = (2, 30, 3)"
proof -
  have w: "well_formed (Some (run_doc 10 4 1))" "well_formed (Some (run_doc 20 5 2))"
    by (simp_all add: well_formed_def run_doc_def int_or_absent_def)
  have n: "\<not> is_json (''notes.txt'', None)"
    by (simp add: is_json_def suffix_to_prefix)
  have h: "\<forall>entry \<in> set [(''a.json'', Some (run_doc 10 4 1)), (''notes.txt'', None),
                          (''b.json'', Some (run_doc 20 5 2))]. is_json entry \<longrightarrow> well_formed (snd entry)"
    using w n by simp
  show ?thesis
    using collect_summary_totals [OF h] w n
    by (simp add: is_json_def suffix_to_prefix summary_field_def run_doc_def)
qed

section \<open>Properties of the target expansion\<close>

lemma py_split_nonempty: "py_split sep s \<noteq> []"
  by (induction s) (auto split: list.splits)






















end
